theory Spec2Isabelle
  imports Main "HOL-Library.Multiset"
begin

section \<open>The image gallery editor (app/components/ImageUploader.tsx)\<close>

text \<open>
  The component keeps two pieces of React state, \<open>orderedImages\<close> and \<open>imagesToDelete\<close>,
  and one ref, \<open>isInitialized\<close>. Every handler is modelled as a function from the state
  before the event to the state after it. The browser calls \<open>URL.revokeObjectURL\<close> made by
  a handler are recorded, in order, in the extra component \<open>revoked\<close>.

  A \<open>File\<close> is opaque to the component; it is represented by a string standing for its
  content.
\<close>

type_synonym blob = string

text \<open>
  A JavaScript number as \<open>parseInt\<close> returns it: \<open>NaN\<close>, an integer (one that a double
  holds), or an infinity. \<open>-0\<close> is \<open>Finite 0\<close>; the two are equal in every comparison.
\<close>

datatype number = NaN | Finite int | PosInfinity | NegInfinity

text \<open>
  The type \<open>ImageUploaderImage\<close>. The field names carry the prefix \<open>img_\<close>
  (\<open>id\<close> is a constant of HOL, and \<open>ImageMetadata\<close> has fields of the same names).
  The optional fields \<open>order_index\<close> and \<open>file\<close> are options.
\<close>

record ImageUploaderImage =
  img_id :: string
  img_storage_id :: string
  img_url :: string
  img_order_index :: "number option"
  img_destacada :: bool
  img_isNew :: bool
  img_file :: "blob option"

text \<open>The type \<open>ImageMetadata\<close>, with the prefix \<open>meta_\<close>.\<close>

record ImageMetadata =
  meta_id :: "string option"
  meta_storage_id :: string
  meta_order_index :: int
  meta_isNew :: bool
  meta_destacada :: bool
  meta_url :: "string option"

text \<open>An element \<open>{ id, storage_id }\<close> of \<open>imagesToDelete\<close>.\<close>

record ImageToDelete =
  del_id :: string
  del_storage_id :: string

text \<open>The interface \<open>ImageUploaderChanges\<close>; the JavaScript \<open>Map\<close> is a HOL map.\<close>

record ImageUploaderChanges =
  orderedImagesMetadata :: "ImageMetadata list"
  filesToUpload :: "string \<rightharpoonup> blob"
  imageIdsToDelete :: "ImageToDelete list"


record uploader =
  orderedImages :: "ImageUploaderImage list"
  imagesToDelete :: "ImageToDelete list"
  isInitialized :: bool
  revoked :: "string list"

text \<open>The state of a freshly mounted component: \<open>useState([])\<close>, \<open>useRef(false)\<close>.\<close>

definition initial :: uploader where
  "initial = \<lparr>orderedImages = [], imagesToDelete = [], isInitialized = False, revoked = []\<rparr>"

subsection \<open>Marking and removing\<close>

text \<open>\<open>remaining[0].destacada = true\<close>, guarded in the source by \<open>remaining.length > 0\<close>.\<close>

fun destacar_primera :: "ImageUploaderImage list \<Rightarrow> ImageUploaderImage list" where
  "destacar_primera [] = []"
| "destacar_primera (img # imgs) = img\<lparr>img_destacada := True\<rparr> # imgs"

definition handleSetDestacada :: "string \<Rightarrow> uploader \<Rightarrow> uploader" where
  "handleSetDestacada storage_id s =
     s\<lparr>orderedImages :=
         map (\<lambda>img. img\<lparr>img_destacada := (img_storage_id img = storage_id)\<rparr>) (orderedImages s)\<rparr>"

definition handleRemoveImage :: "ImageUploaderImage \<Rightarrow> uploader \<Rightarrow> uploader" where
  "handleRemoveImage imageToRemove s =
     (let wasDestacada = img_destacada imageToRemove;
          remaining = filter (\<lambda>img. img_id img \<noteq> img_id imageToRemove) (orderedImages s);
          remaining' = (if wasDestacada \<and> length remaining > 0
                        then destacar_primera remaining else remaining);
          s' = s\<lparr>orderedImages := remaining'\<rparr>
      in if img_isNew imageToRemove
         then s'\<lparr>revoked := revoked s @ [img_url imageToRemove]\<rparr>
         else s'\<lparr>imagesToDelete := imagesToDelete s @
                 [\<lparr>del_id = img_id imageToRemove, del_storage_id = img_storage_id imageToRemove\<rparr>]\<rparr>)"

subsection \<open>Selecting files\<close>

text \<open>
  \<open>handleFileSelect\<close> receives the files chosen in the file input. For each file the
  source calls \<open>generateUUID()\<close> and \<open>URL.createObjectURL(file)\<close>; both are outside the
  component, so an element of the argument is a triple of the identifier minted for the
  file, the file, and its preview URL.
\<close>

definition newImages ::
  "ImageUploaderImage list \<Rightarrow> (string \<times> blob \<times> string) list \<Rightarrow> ImageUploaderImage list" where
  "newImages ordered picked =
     map (\<lambda>(index, storage_id, f, preview).
            \<lparr>img_id = storage_id, img_storage_id = storage_id, img_url = preview,
             img_order_index = None,
             img_destacada = (length ordered = 0 \<and> index = 0),
             img_isNew = True, img_file = Some f\<rparr>)
         (enumerate 0 picked)"

definition handleFileSelect :: "(string \<times> blob \<times> string) list \<Rightarrow> uploader \<Rightarrow> uploader" where
  "handleFileSelect picked s =
     (let created = newImages (orderedImages s) picked;
          created' = (if length created > 0 \<and>
                         list_all (\<lambda>img. \<not> img_destacada img) (orderedImages s)
                      then destacar_primera created else created)
      in s\<lparr>orderedImages := orderedImages s @ created'\<rparr>)"

subsection \<open>Drag and drop\<close>

text \<open>\<open>Array.prototype.findIndex\<close>; the result \<open>-1\<close> is \<open>None\<close>.\<close>

fun findIndex :: "('a \<Rightarrow> bool) \<Rightarrow> 'a list \<Rightarrow> nat option" where
  "findIndex P [] = None"
| "findIndex P (x # xs) =
     (if P x then Some 0 else map_option Suc (findIndex P xs))"

text \<open>
  \<open>arrayMove\<close> is imported from the library \<open>@dnd-kit/sortable\<close>: it copies the array,
  takes the element at \<open>from\<close> out and puts it back at position \<open>to\<close>. \<open>onDragEnd\<close>
  calls it only with two results of \<open>findIndex\<close>, which are positions of the array.
\<close>

definition arrayMove :: "'a list \<Rightarrow> nat \<Rightarrow> nat \<Rightarrow> 'a list" where
  "arrayMove array from to =
     (let moved = array ! from;
          others = take from array @ drop (Suc from) array
      in take to others @ moved # drop to others)"

text \<open>
  The arguments of \<open>onDragEnd\<close> are \<open>active.id\<close> and, when the drop has a target,
  \<open>over.id\<close>.
\<close>

definition onDragEnd :: "string \<Rightarrow> string option \<Rightarrow> uploader \<Rightarrow> uploader" where
  "onDragEnd active over s =
     (case over of
        None \<Rightarrow> s
      | Some over_id \<Rightarrow>
          if active = over_id then s
          else (case (findIndex (\<lambda>img. img_id img = active) (orderedImages s),
                      findIndex (\<lambda>img. img_id img = over_id) (orderedImages s)) of
                  (Some oldIndex, Some newIndex) \<Rightarrow>
                    s\<lparr>orderedImages := arrayMove (orderedImages s) oldIndex newIndex\<rparr>
                | _ \<Rightarrow> s))"

subsection \<open>Notifying the changes\<close>

text \<open>
  The second effect of the component computes, from \<open>orderedImages\<close> and
  \<open>imagesToDelete\<close>, the value handed to \<open>onImagesChange\<close>.
\<close>

definition metadata_of :: "nat \<Rightarrow> ImageUploaderImage \<Rightarrow> ImageMetadata" where
  "metadata_of index img =
     \<lparr>meta_id = (if img_isNew img then None else Some (img_id img)),
      meta_storage_id = img_storage_id img,
      meta_order_index = int index + 1,
      meta_isNew = img_isNew img,
      meta_destacada = img_destacada img,
      meta_url = (if img_isNew img then None else Some (img_url img))\<rparr>"

text \<open>\<open>filesToUpload.set(img.storage_id, img.file)\<close>, for the images in their order.\<close>

fun collect_files :: "ImageUploaderImage list \<Rightarrow> (string \<rightharpoonup> blob) \<Rightarrow> (string \<rightharpoonup> blob)" where
  "collect_files [] m = m"
| "collect_files (img # imgs) m =
     collect_files imgs
       (case img_file img of
          Some f \<Rightarrow> if img_isNew img then m(img_storage_id img \<mapsto> f) else m
        | None \<Rightarrow> m)"

definition changes :: "uploader \<Rightarrow> ImageUploaderChanges" where
  "changes s =
     \<lparr>orderedImagesMetadata =
        map (\<lambda>(index, img). metadata_of index img) (enumerate 0 (orderedImages s)),
      filesToUpload = collect_files (orderedImages s) Map.empty,
      imageIdsToDelete = imagesToDelete s\<rparr>"

subsection \<open>Characters\<close>

text \<open>The ASCII white space and the decimal digits.\<close>

definition is_space :: "char \<Rightarrow> bool" where
  "is_space c = (c \<in> set [CHR '' '', CHR 0x09, CHR 0x0A, CHR 0x0B, CHR 0x0C, CHR 0x0D])"

definition is_digit :: "char \<Rightarrow> bool" where
  "is_digit c = (c \<in> set ''0123456789'')"

subsection \<open>Loading the existing images\<close>

text \<open>
  \<open>parseInt(s, 10)\<close> is a built-in of JavaScript. What it returns is a parameter of the
  model, written \<open>parseInt\<close> below: a function from the string to the number.
\<close>









subsection \<open>Sequences of events\<close>

datatype event =
    AddFiles "(string \<times> blob \<times> string) list"
  | Remove ImageUploaderImage
  | Reorder string "string option"
  | SetFeatured string

fun step :: "event \<Rightarrow> uploader \<Rightarrow> uploader" where
  "step (AddFiles picked) s = handleFileSelect picked s"
| "step (Remove img) s = handleRemoveImage img s"
| "step (Reorder active over) s = onDragEnd active over s"
| "step (SetFeatured storage_id) s = handleSetDestacada storage_id s"

definition run :: "event list \<Rightarrow> uploader \<Rightarrow> uploader" where
  "run es s = fold step es s"

text \<open>
  The events the rendered component can raise in a state: each image of \<open>orderedImages\<close>
  is drawn with a button calling \<open>handleRemoveImage(img)\<close> and a button calling
  \<open>handleSetDestacada(img.storage_id)\<close>; the identifiers minted for selected files are
  new and different from each other.
\<close>

fun raised_by_ui :: "event \<Rightarrow> uploader \<Rightarrow> bool" where
  "raised_by_ui (AddFiles picked) s =
     (distinct (map fst picked) \<and>
      list_all (\<lambda>img. img_id img \<notin> set (map fst picked) \<and>
                      img_storage_id img \<notin> set (map fst picked)) (orderedImages s))"
| "raised_by_ui (Remove img) s = (img \<in> set (orderedImages s))"
| "raised_by_ui (Reorder active over) s = True"
| "raised_by_ui (SetFeatured storage_id) s =
     (storage_id \<in> set (map img_storage_id (orderedImages s)))"

fun all_raised_by_ui :: "event list \<Rightarrow> uploader \<Rightarrow> bool" where
  "all_raised_by_ui [] s = True"
| "all_raised_by_ui (e # es) s = (raised_by_ui e s \<and> all_raised_by_ui es (step e s))"

definition featured :: "ImageUploaderImage list \<Rightarrow> ImageUploaderImage list" where
  "featured imgs = filter img_destacada imgs"

definition well_formed :: "uploader \<Rightarrow> bool" where
  "well_formed s =
     (distinct (map img_id (orderedImages s)) \<and>
      distinct (map img_storage_id (orderedImages s)) \<and>
      length (featured (orderedImages s)) = (if orderedImages s = [] then 0 else 1))"

section \<open>The action of the route (app/routes/vehiculos.nuevo.tsx)\<close>

text \<open>
  The action receives the parsed form and the session, calls Supabase, and answers. The
  Supabase client and the JavaScript built-ins it relies on are outside the file; what
  they return is a parameter of the model, collected in the record \<open>env\<close>. A Supabase
  call answers with a pair of data and error and does not throw; the answer to a call is
  taken as a function of the arguments of the call.
\<close>

datatype err =
    NoSession
  | NoUser
  | TypeError
  | SyntaxError
  | BucketMissing
  | Backend string

text \<open>A value of \<open>FormData\<close>: a string, or a \<open>File\<close> built by \<open>uploadHandler\<close>.\<close>

datatype form_value = FString string | FFile blob

record request =
  formData :: "string \<rightharpoonup> form_value"
  session_concesionario_id :: "string option"
  session_user_id :: "string option"

text \<open>
  The calls that write to the database or to the storage bucket. \<open>InsertVehiculo\<close> stands
  for the insertion of the row of the vehicle, whose columns play no role below.
  \<open>InsertImage\<close> lists \<open>vehicle_id\<close>, \<open>url\<close>, \<open>order_index\<close>, \<open>storage_id\<close>, \<open>destacada\<close>
  and \<open>id_v\<close>; \<open>UpdateImage\<close> lists the \<open>id\<close> of the row, \<open>order_index\<close> and \<open>destacada\<close>;
  \<open>UpdateUrlImg\<close> lists the \<open>uuid\<close> of the vehicle and the new \<open>url_img\<close>.
\<close>

datatype call =
    InsertVehiculo
  | StorageUpload string blob
  | InsertImage string string int string string string
  | UpdateImage "string option" int string
  | StorageRemove string
  | DeleteImage string
  | UpdateUrlImg string string

text \<open>A call that was made, with the error of its answer, if the answer had one.\<close>

type_synonym trace = "(call \<times> err option) list"

record env =
  isNaN_Number :: "string \<Rightarrow> bool"
  trim :: "string \<Rightarrow> string"
  parse_metadata :: "string \<Rightarrow> ImageMetadata list option"
  parse_deletions :: "string \<Rightarrow> ImageToDelete list option"
  select_user_uuid :: "string \<Rightarrow> err + string option"
  insert_vehiculo :: "err + string \<times> string"
  listBuckets :: "string \<Rightarrow> err + string list"
  getPublicUrl :: "string \<Rightarrow> string"
  answer :: "call \<Rightarrow> err option"

text \<open>
  \<open>isNaN_Number s\<close> is \<open>isNaN(Number(s))\<close>, and \<open>trim s\<close> is \<open>s.trim()\<close>.
  \<open>parse_metadata\<close> and \<open>parse_deletions\<close> are
  \<open>JSON.parse\<close> on the two payloads, \<open>None\<close> when it throws; a payload that parses has the
  type the source declares for it. \<open>select_user_uuid\<close> is the query on \<open>users\<close>, by
  \<open>auth_id\<close>. \<open>insert_vehiculo\<close> is the answer to the insertion of the vehicle: an error,
  or the \<open>id\<close> (written in decimal) and the \<open>uuid\<close> of the new row. \<open>listBuckets\<close> is the
  answer to \<open>storage.listBuckets()\<close> made for the file path given, an error or the names
  of the buckets. \<open>answer\<close> gives the error in the answer to each of the other calls.
\<close>

text \<open>The result of a promise given to \<open>Promise.allSettled\<close>.\<close>

datatype result = Skipped | Answered "err option"

datatype settled = Fulfilled result | Rejected err

datatype reply =
    JsonOk
  | JsonError err nat
  | JsonErrors "string list" nat
  | Redirect string

text \<open>
  \<open>JsonOk\<close> is \<open>json({ ok: true })\<close>; \<open>JsonError e status\<close> is \<open>json({ error }, { status })\<close>;
  \<open>JsonErrors keys 400\<close> is \<open>json({ errors }, { status: 400 })\<close>, where \<open>keys\<close> are the keys
  of \<open>errors\<close> in the order in which they were set (the messages are fixed texts).
\<close>

text \<open>
  What the action did: its reply, the calls made before the images are processed, for
  each promise given to \<open>Promise.allSettled\<close> its result and the calls it made, and the
  calls of the last step, on \<open>url_img\<close>.
\<close>

record outcome =
  reply :: reply
  parent :: trace
  tasks :: "(settled \<times> trace) list"
  cover :: trace

definition calls :: "outcome \<Rightarrow> trace" where
  "calls out = parent out @ concat (map snd (tasks out)) @ cover out"

subsection \<open>Validation\<close>

text \<open>\<open>!v\<close> for a value of the form: \<open>null\<close> and the empty string are falsy.\<close>

definition falsy :: "form_value option \<Rightarrow> bool" where
  "falsy v = (v = None \<or> v = Some (FString ''''))"

text \<open>
  \<open>raw === null || raw === "" || isNaN(Number(raw))\<close>; \<open>Number\<close> of a \<open>File\<close> is \<open>NaN\<close>.
\<close>

definition not_a_number :: "env \<Rightarrow> form_value option \<Rightarrow> bool" where
  "not_a_number e raw =
     (case raw of
        None \<Rightarrow> True
      | Some (FString s) \<Rightarrow> s = '''' \<or> isNaN_Number e s
      | Some (FFile f) \<Rightarrow> True)"

text \<open>
  \<open>String.prototype.trim\<close> restricted to the ASCII white space; the example runtime below
  trims with it.
\<close>

definition ascii_trim :: "string \<Rightarrow> string" where
  "ascii_trim s = rev (dropWhile is_space (rev (dropWhile is_space s)))"

text \<open>\<open>!placa?.trim()\<close>; a \<open>File\<close> has no method \<open>trim\<close>, and the call throws.\<close>

definition placa_missing :: "env \<Rightarrow> form_value option \<Rightarrow> err + bool" where
  "placa_missing e placa =
     (case placa of
        None \<Rightarrow> Inr True
      | Some (FString s) \<Rightarrow> Inr (trim e s = '''')
      | Some (FFile f) \<Rightarrow> Inl TypeError)"

definition error_if :: "bool \<Rightarrow> string \<Rightarrow> string list" where
  "error_if missing key = (if missing then [key] else [])"

text \<open>The block "Validacion de campos requeridos": the keys of \<open>errors\<close>, or the exception.\<close>

definition validate :: "env \<Rightarrow> (string \<rightharpoonup> form_value) \<Rightarrow> err + string list" where
  "validate e fd =
     (case placa_missing e (fd ''placa'') of
        Inl thrown \<Rightarrow> Inl thrown
      | Inr no_placa \<Rightarrow>
          Inr (error_if (falsy (fd ''marca'')) ''marca'' @
               error_if (falsy (fd ''modelo'')) ''modelo'' @
               error_if (not_a_number e (fd ''anio'')) ''anio'' @
               error_if (falsy (fd ''version'')) ''version'' @
               error_if (not_a_number e (fd ''puertas'')) ''puertas'' @
               error_if (falsy (fd ''combustible'')) ''combustible'' @
               error_if (falsy (fd ''color'')) ''color'' @
               error_if no_placa ''placa'' @
               error_if (not_a_number e (fd ''km'')) ''km'' @
               error_if (not_a_number e (fd ''precio'')) ''precio'' @
               error_if (falsy (fd ''transmision'')) ''transmision'' @
               error_if (falsy (fd ''carroceria'')) ''carroceria'' @
               error_if (falsy (fd ''traccion'')) ''traccion'' @
               error_if (not_a_number e (fd ''cilindraje'')) ''cilindraje''))"

text \<open>\<open>JSON.parse(formData.get(name) as string || "[]")\<close>; \<open>None\<close> when it throws.\<close>

definition payload :: "(string \<Rightarrow> 'a list option) \<Rightarrow> form_value option \<Rightarrow> 'a list option" where
  "payload parse v =
     (if falsy v then parse ''[]''
      else (case v of
              Some (FString s) \<Rightarrow> parse s
            | _ \<Rightarrow> None))"

subsection \<open>The start of the action, up to the insertion of the vehicle\<close>

datatype started =
    Stopped reply trace
  | Started string string "ImageMetadata list" "ImageToDelete list"

text \<open>
  \<open>Started vehicleId vehicleUuid metas dels\<close>: the vehicle was inserted, \<open>metas\<close> is the
  parsed \<open>orderedImagesMetadata\<close> and \<open>dels\<close> the parsed \<open>imageIdsToDelete\<close> of the form,
  and the images are processed next. \<open>Stopped\<close>: the action returned, or
  threw into its \<open>catch\<close>, with the reply and the calls given.
\<close>

text \<open>
  The returns before the fields are read: the request that only clears a fetcher, the
  session without identifiers, the user that is not found.
\<close>

definition early_return :: "env \<Rightarrow> request \<Rightarrow> reply option" where
  "early_return e req =
     (if formData req ''_clearFetcher'' = Some (FString ''true'') then Some JsonOk
      else if session_concesionario_id req \<in> {None, Some ''''} \<or>
              session_user_id req \<in> {None, Some ''''}
      then Some (JsonError NoSession 401)
      else (case select_user_uuid e (the (session_user_id req)) of
              Inl _ \<Rightarrow> Some (JsonError NoUser 401)
            | Inr None \<Rightarrow> Some (JsonError NoUser 401)
            | Inr (Some user_id) \<Rightarrow>
                if user_id = '''' then Some (JsonError NoUser 401) else None))"

definition start :: "env \<Rightarrow> request \<Rightarrow> started" where
  "start e req =
     (let fd = formData req in
      case early_return e req of
        Some r \<Rightarrow> Stopped r []
      | None \<Rightarrow>
          (case validate e fd of
             Inl thrown \<Rightarrow> Stopped (JsonError thrown 500) []
           | Inr errors \<Rightarrow>
               if length errors > 0 then Stopped (JsonErrors errors 400) []
               else (case payload (parse_metadata e) (fd ''orderedImagesMetadata'') of
                       None \<Rightarrow> Stopped (JsonError SyntaxError 500) []
                     | Some metas \<Rightarrow>
                         (case payload (parse_deletions e) (fd ''imageIdsToDelete'') of
                            None \<Rightarrow> Stopped (JsonError SyntaxError 500) []
                          | Some dels \<Rightarrow>
                              (case insert_vehiculo e of
                                 Inl vehicleError \<Rightarrow>
                                   Stopped (JsonError vehicleError 500)
                                     [(InsertVehiculo, Some vehicleError)]
                               | Inr (vehicleId, vehicleUuid) \<Rightarrow>
                                   Started vehicleId vehicleUuid metas dels)))))"

subsection \<open>The images\<close>

definition filePath :: "string \<Rightarrow> string \<Rightarrow> string" where
  "filePath vehicleId storage_id = vehicleId @ ''/'' @ storage_id"

definition destacada_text :: "bool \<Rightarrow> string" where
  "destacada_text d = (if d then ''true'' else ''false'')"

text \<open>The promise made for a new image ("2. Procesar imagenes nuevas").\<close>

definition upload_task ::
  "env \<Rightarrow> (string \<rightharpoonup> form_value) \<Rightarrow> string \<Rightarrow> string \<Rightarrow> ImageMetadata \<Rightarrow> settled \<times> trace" where
  "upload_task e fd vehicleId vehicleUuid meta =
     (case fd (meta_storage_id meta) of
        Some (FFile f) \<Rightarrow>
          (let path = filePath vehicleId (meta_storage_id meta) in
           case listBuckets e path of
             Inl bucketsError \<Rightarrow> (Rejected bucketsError, [])
           | Inr buckets \<Rightarrow>
               if \<not> list_ex (\<lambda>bucket. bucket = ''imagen-vehiculo'') buckets
               then (Rejected BucketMissing, [])
               else
                 (let upload = StorageUpload path f in
                  case answer e upload of
                    Some uploadError \<Rightarrow> (Rejected uploadError, [(upload, Some uploadError)])
                  | None \<Rightarrow>
                      (let insert = InsertImage vehicleUuid (getPublicUrl e path)
                                      (meta_order_index meta) (meta_storage_id meta)
                                      (destacada_text (meta_destacada meta)) vehicleId
                       in case answer e insert of
                            Some insertError \<Rightarrow>
                              (Rejected insertError, [(upload, None), (insert, Some insertError)])
                          | None \<Rightarrow>
                              (Fulfilled (Answered None), [(upload, None), (insert, None)]))))
      | _ \<Rightarrow> (Fulfilled Skipped, []))"

text \<open>The promise made for an image that is not new ("3. Actualizar orden").\<close>

definition update_task :: "env \<Rightarrow> ImageMetadata \<Rightarrow> settled \<times> trace" where
  "update_task e meta =
     (let update = UpdateImage (meta_id meta) (meta_order_index meta)
                     (destacada_text (meta_destacada meta))
      in (Fulfilled (Answered (answer e update)), [(update, answer e update)]))"

text \<open>
  The promise made for an image to delete ("4. Eliminar imagenes marcadas"): the answer
  to the removal from the bucket is awaited and dropped.
\<close>

definition delete_task :: "env \<Rightarrow> string \<Rightarrow> ImageToDelete \<Rightarrow> settled \<times> trace" where
  "delete_task e vehicleId imageToDelete =
     (let storagePath = filePath vehicleId (del_storage_id imageToDelete);
          removal = StorageRemove storagePath;
          deletion = DeleteImage (del_id imageToDelete)
      in (Fulfilled (Answered (answer e deletion)),
          [(removal, answer e removal), (deletion, answer e deletion)]))"

text \<open>The last step ("5. Actualizar url_img en vehiculos con la imagen destacada").\<close>

definition cover_step :: "env \<Rightarrow> string \<Rightarrow> string \<Rightarrow> ImageMetadata list \<Rightarrow> trace" where
  "cover_step e vehicleId vehicleUuid metas =
     (case find meta_destacada metas of
        None \<Rightarrow> []
      | Some featuredImage \<Rightarrow>
          (let featuredImageUrl =
                 (if meta_isNew featuredImage
                  then getPublicUrl e (filePath vehicleId (meta_storage_id featuredImage))
                  else (case meta_url featuredImage of Some u \<Rightarrow> u | None \<Rightarrow> ''''))
           in if featuredImageUrl \<noteq> ''''
              then [(UpdateUrlImg vehicleUuid featuredImageUrl,
                     answer e (UpdateUrlImg vehicleUuid featuredImageUrl))]
              else []))"

text \<open>
  The promises are created in the order below and run independently of each other;
  \<open>Promise.allSettled\<close> waits for all of them and never rejects.
\<close>

definition promises ::
  "env \<Rightarrow> (string \<rightharpoonup> form_value) \<Rightarrow> string \<Rightarrow> string \<Rightarrow> ImageMetadata list \<Rightarrow>
   ImageToDelete list \<Rightarrow> (settled \<times> trace) list" where
  "promises e fd vehicleId vehicleUuid metas dels =
     (let imageUploadPromises =
            map (upload_task e fd vehicleId vehicleUuid) (filter meta_isNew metas);
          updateOrderPromises =
            map (update_task e) (filter (\<lambda>meta. \<not> meta_isNew meta) metas);
          deletePromises = map (delete_task e vehicleId) dels
      in imageUploadPromises @ updateOrderPromises @ deletePromises)"

definition action :: "env \<Rightarrow> request \<Rightarrow> outcome" where
  "action e req =
     (case start e req of
        Stopped r made \<Rightarrow> \<lparr>reply = r, parent = made, tasks = [], cover = []\<rparr>
      | Started vehicleId vehicleUuid metas dels \<Rightarrow>
          \<lparr>reply = Redirect ''/vehiculos'',
           parent = [(InsertVehiculo, None)],
           tasks = promises e (formData req) vehicleId vehicleUuid metas dels,
           cover = cover_step e vehicleId vehicleUuid metas\<rparr>)"

text \<open>Whether a call uploads to a path, or inserts the row of an image.\<close>

fun uploads_to :: "string \<Rightarrow> call \<Rightarrow> bool" where
  "uploads_to path (StorageUpload p f) = (p = path)"
| "uploads_to path _ = False"

fun inserts_image :: "string \<Rightarrow> call \<Rightarrow> bool" where
  "inserts_image sid (InsertImage vehicle_id url order_index storage_id destacada id_v) =
     (storage_id = sid)"
| "inserts_image sid _ = False"

section \<open>Example inputs\<close>

text \<open>Concrete sessions and collections, on which the theorems below are instantiated.\<close>

definition image_a :: ImageUploaderImage where
  "image_a = \<lparr>img_id = ''a'', img_storage_id = ''a'', img_url = ''blob:a'',
              img_order_index = None, img_destacada = True, img_isNew = True,
              img_file = Some ''A''\<rparr>"

definition image_b :: ImageUploaderImage where
  "image_b = \<lparr>img_id = ''b'', img_storage_id = ''b'', img_url = ''blob:b'',
              img_order_index = None, img_destacada = False, img_isNew = True,
              img_file = Some ''B''\<rparr>"

definition image_7 :: ImageUploaderImage where
  "image_7 = \<lparr>img_id = ''7'', img_storage_id = ''s7'', img_url = ''https://cdn/7'',
              img_order_index = Some (Finite 1), img_destacada = False, img_isNew = False,
              img_file = None\<rparr>"

definition two_new :: uploader where
  "two_new = \<lparr>orderedImages = [image_a, image_b], imagesToDelete = [],
              isInitialized = True, revoked = []\<rparr>"

definition mixed :: uploader where
  "mixed = \<lparr>orderedImages = [image_7, image_a, image_b], imagesToDelete = [],
            isInitialized = True, revoked = []\<rparr>"

definition editing_session :: "event list" where
  "editing_session =
     [AddFiles [(''a'', ''A'', ''blob:a''), (''b'', ''B'', ''blob:b'')],
      SetFeatured ''b'',
      Reorder ''b'' (Some ''a''),
      Remove (image_b\<lparr>img_destacada := True\<rparr>)]"

definition stale_session :: "event list" where
  "stale_session = [AddFiles [(''a'', ''A'', ''blob:a'')], SetFeatured ''zzz'']"



text \<open>
  A submission with three new images (\<open>a\<close>, featured, and \<open>b\<close> come with their files,
  \<open>c\<close> comes without), one image that is kept and one image to delete, sent to a backend
  where the upload of \<open>a\<close> and the removal of the deleted image from the bucket fail.
\<close>

definition meta_a :: ImageMetadata where
  "meta_a = \<lparr>meta_id = None, meta_storage_id = ''a'', meta_order_index = 1,
             meta_isNew = True, meta_destacada = True, meta_url = None\<rparr>"

definition meta_b :: ImageMetadata where
  "meta_b = \<lparr>meta_id = None, meta_storage_id = ''b'', meta_order_index = 2,
             meta_isNew = True, meta_destacada = False, meta_url = None\<rparr>"

definition meta_7 :: ImageMetadata where
  "meta_7 = \<lparr>meta_id = Some ''7'', meta_storage_id = ''s7'', meta_order_index = 3,
             meta_isNew = False, meta_destacada = False, meta_url = Some ''https://cdn/7''\<rparr>"

definition meta_c :: ImageMetadata where
  "meta_c = \<lparr>meta_id = None, meta_storage_id = ''c'', meta_order_index = 4,
             meta_isNew = True, meta_destacada = False, meta_url = None\<rparr>"

definition del_9 :: ImageToDelete where
  "del_9 = \<lparr>del_id = ''9'', del_storage_id = ''s9''\<rparr>"

definition good_form :: "string \<rightharpoonup> form_value" where
  "good_form = map_of
     [(''marca'', FString ''Mazda''), (''modelo'', FString ''3''), (''anio'', FString ''2020''),
      (''version'', FString ''Touring''), (''puertas'', FString ''4''),
      (''combustible'', FString ''Gasolina''), (''color'', FString ''Rojo''),
      (''placa'', FString '' ABC123 ''), (''km'', FString ''1000''),
      (''precio'', FString ''50''), (''transmision'', FString ''Manual''),
      (''carroceria'', FString ''Sedan''), (''traccion'', FString ''4x2''),
      (''cilindraje'', FString ''2000''),
      (''orderedImagesMetadata'', FString ''metadata''),
      (''imageIdsToDelete'', FString ''deletions''),
      (''a'', FFile ''A''), (''b'', FFile ''B'')]"

definition submission :: request where
  "submission = \<lparr>formData = good_form, session_concesionario_id = Some ''5'',
                 session_user_id = Some ''auth-1''\<rparr>"

definition incomplete :: request where
  "incomplete = submission\<lparr>formData := good_form(''marca'' := None, ''km'' \<mapsto> FString ''far'')\<rparr>"

definition flaky :: env where
  "flaky = \<lparr>isNaN_Number = (\<lambda>s. \<not> list_all is_digit s),
            trim = ascii_trim,
            parse_metadata = (\<lambda>s. if s = ''[]'' then Some []
                                   else if s = ''metadata''
                                   then Some [meta_a, meta_b, meta_7, meta_c] else None),
            parse_deletions = (\<lambda>s. if s = ''[]'' then Some []
                                    else if s = ''deletions'' then Some [del_9] else None),
            select_user_uuid = (\<lambda>auth_id. if auth_id = ''auth-1'' then Inr (Some ''user-1'')
                                           else Inr None),
            insert_vehiculo = Inr (''1'', ''v-1''),
            listBuckets = (\<lambda>path. Inr [''imagen-vehiculo'']),
            getPublicUrl = (\<lambda>path. ''https://cdn/'' @ path),
            answer = (\<lambda>c. if c = StorageUpload ''1/a'' ''A'' then Some (Backend ''upload'')
                           else if c = StorageRemove ''1/s9'' then Some (Backend ''removal'')
                           else None)\<rparr>"

section \<open>Properties of the editor\<close>

lemma handleRemoveImage_orderedImages:
  "orderedImages (handleRemoveImage r s) =
     (if img_destacada r
      then destacar_primera (filter (\<lambda>img. img_id img \<noteq> img_id r) (orderedImages s))
      else filter (\<lambda>img. img_id img \<noteq> img_id r) (orderedImages s))"
  by (cases "filter (\<lambda>img. img_id img \<noteq> img_id r) (orderedImages s)")
     (simp_all add: handleRemoveImage_def Let_def)

lemma img_id_destacar_primera: "map img_id (destacar_primera xs) = map img_id xs"
  by (cases xs) simp_all

lemma findIndex_less: "findIndex P xs = Some i \<Longrightarrow> i < length xs"
  by (induction xs arbitrary: i) (auto split: if_splits)

lemma mset_arrayMove: "from < length xs \<Longrightarrow> mset (arrayMove xs from to) = mset xs"
proof -
  assume lt: "from < length xs"
  define others where "others = take from xs @ drop (Suc from) xs"
  have "mset (take to others @ xs ! from # drop to others) = mset others + {#xs ! from#}"
    by (metis append_take_drop_id mset.simps(2) mset_append union_mset_add_mset_right add.right_neutral)
  also have "\<dots> = mset (take from xs @ xs ! from # drop (Suc from) xs)"
    by (simp add: others_def)
  also have "\<dots> = mset xs"
    using lt by (simp add: id_take_nth_drop [symmetric])
  finally show ?thesis
    by (simp add: arrayMove_def Let_def others_def)
qed

lemma length_featured_mset: "length (featured xs) = size (filter_mset img_destacada (mset xs))"
  by (simp add: featured_def flip: mset_filter size_mset)

lemma distinct_map_mset:
  assumes "mset xs = mset ys"
  shows "distinct (map f xs) \<longleftrightarrow> distinct (map f ys)"
proof -
  have "mset (map f xs) = mset (map f ys)"
    using assms by (metis mset_map)
  then show ?thesis by (rule mset_eq_imp_distinct_iff)
qed

lemma well_formed_mset:
  assumes "well_formed s" "mset xs = mset (orderedImages s)"
  shows "well_formed (s\<lparr>orderedImages := xs\<rparr>)"
proof -
  have "xs = [] \<longleftrightarrow> orderedImages s = []"
    using assms(2) by (metis mset_zero_iff)
  with assms show ?thesis
    by (simp add: well_formed_def length_featured_mset distinct_map_mset [OF assms(2)])
qed

lemma well_formed_onDragEnd: "well_formed s \<Longrightarrow> well_formed (onDragEnd active over s)"
  by (auto simp: onDragEnd_def split: option.splits
           intro!: well_formed_mset mset_arrayMove dest: findIndex_less)

lemma count_match_distinct:
  "distinct (map f xs) \<Longrightarrow> y \<in> set (map f xs) \<Longrightarrow> length (filter (\<lambda>x. f x = y) xs) = 1"
proof (induction xs)
  case Nil
  then show ?case by simp
next
  case (Cons x xs)
  show ?case
  proof (cases "f x = y")
    case True
    from Cons.prems have "f x \<notin> f ` set xs" by simp
    with True have "\<forall>z \<in> set xs. f z \<noteq> y" by blast
    then have "filter (\<lambda>x. f x = y) xs = []"
      by (simp add: filter_empty_conv)
    with True show ?thesis by simp
  next
    case False
    with Cons show ?thesis by auto
  qed
qed

lemma featured_set:
  "featured (map (\<lambda>img. img\<lparr>img_destacada := (img_storage_id img = sid)\<rparr>) xs) =
   map (\<lambda>img. img\<lparr>img_destacada := True\<rparr>) (filter (\<lambda>img. img_storage_id img = sid) xs)"
  by (induction xs) (simp_all add: featured_def)

lemma well_formed_handleSetDestacada:
  assumes "well_formed s" "sid \<in> set (map img_storage_id (orderedImages s))"
  shows "well_formed (handleSetDestacada sid s)"
proof -
  have "length (filter (\<lambda>img. img_storage_id img = sid) (orderedImages s)) = 1"
    using assms by (intro count_match_distinct) (simp_all add: well_formed_def)
  moreover have "orderedImages s \<noteq> []" using assms(2) by auto
  ultimately show ?thesis
    using assms(1)
    by (simp add: well_formed_def handleSetDestacada_def featured_set comp_def)
qed


lemma featured_Nil [simp]: "featured [] = []"
  by (simp add: featured_def)

lemma featured_append: "featured (xs @ ys) = featured xs @ featured ys"
  by (simp add: featured_def)

lemma img_storage_id_destacar_primera:
  "map img_storage_id (destacar_primera xs) = map img_storage_id xs"
  by (cases xs) simp_all

lemma featured_destacar_primera:
  "featured xs = [] \<Longrightarrow> xs \<noteq> [] \<Longrightarrow> length (featured (destacar_primera xs)) = 1"
  by (cases xs) (auto simp: featured_def split: if_splits)

lemma filter_other_ids:
  "img_id r \<notin> set (map img_id xs) \<Longrightarrow> filter (\<lambda>img. img_id img \<noteq> img_id r) xs = xs"
  by (induction xs) auto

lemma featured_without:
  "distinct (map img_id xs) \<Longrightarrow> r \<in> set xs \<Longrightarrow>
   length (featured xs) =
     length (featured (filter (\<lambda>img. img_id img \<noteq> img_id r) xs)) +
     (if img_destacada r then 1 else 0)"
proof (induction xs)
  case Nil
  then show ?case by simp
next
  case (Cons x xs)
  show ?case
  proof (cases "x = r")
    case True
    with Cons.prems have "img_id r \<notin> set (map img_id xs)" by simp
    then have "filter (\<lambda>img. img_id img \<noteq> img_id r) xs = xs" by (rule filter_other_ids)
    with True show ?thesis by (simp add: featured_def)
  next
    case False
    with Cons.prems have r: "r \<in> set xs" by simp
    with Cons.prems have "img_id x \<noteq> img_id r" by force
    with Cons.IH [OF _ r] Cons.prems(1) show ?thesis by (simp add: featured_def)
  qed
qed

lemma well_formed_handleRemoveImage:
  assumes wf: "well_formed s" and r: "r \<in> set (orderedImages s)"
  shows "well_formed (handleRemoveImage r s)"
proof -
  define rest where "rest = filter (\<lambda>img. img_id img \<noteq> img_id r) (orderedImages s)"
  have ids: "distinct (map img_id rest)" "distinct (map img_storage_id rest)"
    using wf by (simp_all add: well_formed_def rest_def distinct_map_filter)
  have count: "length (featured rest) + (if img_destacada r then 1 else 0) = 1"
  proof -
    from r have "orderedImages s \<noteq> []" by auto
    with wf have "length (featured (orderedImages s)) = 1"
      by (simp add: well_formed_def)
    moreover from wf have "distinct (map img_id (orderedImages s))"
      by (simp add: well_formed_def)
    ultimately show ?thesis
      using featured_without [of "orderedImages s" r] r by (simp add: rest_def)
  qed
  have feat: "length (featured (if img_destacada r then destacar_primera rest else rest)) =
              (if rest = [] then 0 else 1)"
  proof (cases "img_destacada r")
    case True
    with count have "featured rest = []" by simp
    with True show ?thesis
      by (cases "rest = []") (simp_all add: featured_destacar_primera)
  next
    case False
    with count show ?thesis by (auto simp: featured_def)
  qed
  have empty: "(if img_destacada r then destacar_primera rest else rest) = [] \<longleftrightarrow> rest = []"
    by (cases rest) simp_all
  have "well_formed (s\<lparr>orderedImages := (if img_destacada r then destacar_primera rest else rest)\<rparr>)"
    using ids feat empty
    by (simp add: well_formed_def img_id_destacar_primera img_storage_id_destacar_primera)
  moreover have "orderedImages (handleRemoveImage r s) =
                 (if img_destacada r then destacar_primera rest else rest)"
    by (simp add: handleRemoveImage_orderedImages rest_def)
  ultimately show ?thesis
    by (simp add: well_formed_def)
qed

lemma img_id_newImages: "map img_id (newImages xs picked) = map fst picked"
proof -
  have "map img_id (newImages xs picked) = map (fst \<circ> snd) (enumerate 0 picked)"
    by (simp add: newImages_def comp_def case_prod_beta)
  also have "\<dots> = map fst (map snd (enumerate 0 picked))" by (simp only: map_map)
  finally show ?thesis by (simp only: map_snd_enumerate)
qed

lemma img_storage_id_newImages: "map img_storage_id (newImages xs picked) = map fst picked"
proof -
  have "map img_storage_id (newImages xs picked) = map (fst \<circ> snd) (enumerate 0 picked)"
    by (simp add: newImages_def comp_def case_prod_beta)
  also have "\<dots> = map fst (map snd (enumerate 0 picked))" by (simp only: map_map)
  finally show ?thesis by (simp only: map_snd_enumerate)
qed

lemma featured_later:
  "0 < n \<or> b \<Longrightarrow>
   featured (map (\<lambda>(index, storage_id, f, preview).
            \<lparr>img_id = storage_id, img_storage_id = storage_id, img_url = preview,
             img_order_index = None,
             img_destacada = (\<not> b \<and> index = 0),
             img_isNew = True, img_file = Some f\<rparr>) (enumerate n picked)) = []"
  by (induction picked arbitrary: n) (auto simp: featured_def)

lemma featured_newImages_nonempty:
  "xs \<noteq> [] \<Longrightarrow> featured (newImages xs picked) = []"
  using featured_later [of 0 "xs \<noteq> []" picked] by (simp add: newImages_def)

lemma featured_newImages_empty:
  "length (featured (destacar_primera (newImages [] picked))) = (if picked = [] then 0 else 1)"
proof (cases picked)
  case Nil
  then show ?thesis by (simp add: newImages_def featured_def)
next
  case (Cons p ps)
  then show ?thesis
    using featured_later [of "Suc 0" False ps]
    by (simp add: newImages_def featured_def case_prod_beta)
qed

lemma well_formed_handleFileSelect:
  assumes wf: "well_formed s" and ui: "raised_by_ui (AddFiles picked) s"
  shows "well_formed (handleFileSelect picked s)"
proof -
  define created where "created = newImages (orderedImages s) picked"
  define created' where "created' =
    (if length created > 0 \<and> list_all (\<lambda>img. \<not> img_destacada img) (orderedImages s)
     then destacar_primera created else created)"
  have out: "orderedImages (handleFileSelect picked s) = orderedImages s @ created'"
    by (simp add: handleFileSelect_def created_def created'_def Let_def)
  have ids: "map img_id created' = map fst picked" "map img_storage_id created' = map fst picked"
    by (simp_all add: created'_def created_def img_id_destacar_primera img_id_newImages
          img_storage_id_destacar_primera img_storage_id_newImages)
  have empty: "created' = [] \<longleftrightarrow> picked = []"
    using ids(1) by (metis map_is_Nil_conv)
  have d1: "distinct (map img_id (orderedImages s @ created'))"
    using wf ui by (auto simp: ids well_formed_def list_all_iff)
  have d2: "distinct (map img_storage_id (orderedImages s @ created'))"
    using wf ui by (auto simp: ids well_formed_def list_all_iff)
  have feat: "length (featured (orderedImages s @ created')) =
              (if orderedImages s @ created' = [] then 0 else 1)"
  proof (cases "orderedImages s = []")
    case True
    then have "created' = destacar_primera (newImages [] picked)"
      by (cases picked) (simp_all add: created'_def created_def newImages_def)
    with True empty show ?thesis
      by (simp add: featured_newImages_empty)
  next
    case False
    with wf have one: "length (featured (orderedImages s)) = 1"
      by (simp add: well_formed_def)
    then have "featured (orderedImages s) \<noteq> []" by auto
    then have "\<not> list_all (\<lambda>img. \<not> img_destacada img) (orderedImages s)"
      by (simp add: featured_def list_all_iff filter_empty_conv)
    then have "created' = created" by (simp add: created'_def)
    with False one show ?thesis
      by (simp add: featured_append created_def featured_newImages_nonempty)
  qed
  from d1 d2 feat show ?thesis
    by (simp add: well_formed_def out)
qed


lemma well_formed_initial: "well_formed initial"
  by (simp add: well_formed_def initial_def)

lemma well_formed_step: "well_formed s \<Longrightarrow> raised_by_ui e s \<Longrightarrow> well_formed (step e s)"
  by (cases e)
     (simp_all add: well_formed_handleFileSelect well_formed_handleRemoveImage
        well_formed_onDragEnd well_formed_handleSetDestacada)

lemma well_formed_run:
  "well_formed s \<Longrightarrow> all_raised_by_ui es s \<Longrightarrow> well_formed (run (take n es) s)"
proof (induction es arbitrary: s n)
  case Nil
  then show ?case by (simp add: run_def)
next
  case (Cons e es)
  show ?case
  proof (cases n)
    case 0
    with Cons.prems show ?thesis by (simp add: run_def)
  next
    case (Suc m)
    from Cons.prems have "well_formed (step e s)" "all_raised_by_ui es (step e s)"
      by (simp_all add: well_formed_step)
    then have "well_formed (run (take m es) (step e s))" by (rule Cons.IH)
    with Suc show ?thesis by (simp add: run_def)
  qed
qed

lemma update_orderedImages_same:
  "s\<lparr>orderedImages := ys\<rparr> = s \<longleftrightarrow> ys = orderedImages s"
  by (cases s) simp

lemma map_flags_same:
  "map (\<lambda>img. img\<lparr>img_destacada := (img_storage_id img = sid)\<rparr>) xs = xs \<longleftrightarrow>
   (\<forall>img \<in> set xs. img_destacada img = (img_storage_id img = sid))"
  for xs :: "ImageUploaderImage list"
proof -
  have same: "img\<lparr>img_destacada := b\<rparr> = img \<longleftrightarrow> img_destacada img = b"
    for b and img :: ImageUploaderImage
    by (cases img) auto
  show ?thesis
    by (induction xs) (simp_all add: same)
qed

lemma collect_files_other:
  "k \<notin> set (map img_storage_id xs) \<Longrightarrow> collect_files xs m k = m k"
  by (induction xs arbitrary: m) (auto split: option.splits)

lemma collect_files_new:
  "distinct (map img_storage_id xs) \<Longrightarrow> img \<in> set xs \<Longrightarrow> img_isNew img \<Longrightarrow>
   img_file img = Some f \<Longrightarrow> collect_files xs m (img_storage_id img) = Some f"
proof (induction xs arbitrary: m)
  case Nil
  then show ?case by simp
next
  case (Cons x xs)
  show ?case
  proof (cases "x = img")
    case True
    with Cons.prems show ?thesis by (simp add: collect_files_other)
  next
    case False
    with Cons.prems have "img \<in> set xs" "distinct (map img_storage_id xs)" by simp_all
    then show ?thesis using Cons.prems(3,4) by (simp add: Cons.IH)
  qed
qed

lemma dom_collect_files:
  "dom (collect_files xs m) =
   dom m \<union> img_storage_id ` {img \<in> set xs. img_isNew img \<and> img_file img \<noteq> None}"
  by (induction xs arbitrary: m) (auto split: option.splits)

lemma metadata_order:
  "map meta_order_index (map (\<lambda>(index, img). metadata_of index img) (enumerate n xs)) =
   map int [Suc n..<Suc n + length xs]"
proof (induction xs arbitrary: n)
  case Nil
  show ?case by simp
next
  case (Cons x xs)
  have "[Suc n..<Suc n + length (x # xs)] = Suc n # [Suc (Suc n)..<Suc (Suc n) + length xs]"
    by (simp del: upt_Suc add: upt_conv_Cons)
  with Cons [of "Suc n"] show ?case by (simp add: metadata_of_def)
qed






text \<open>The equations that evaluate the editor on the example inputs.\<close>

lemmas ev = run_def initial_def handleFileSelect_def newImages_def enumerate_eq_zip
       handleSetDestacada_def onDragEnd_def arrayMove_def handleRemoveImage_def Let_def
       image_a_def image_b_def image_7_def two_new_def mixed_def featured_def

section \<open>The claims about the editor\<close>

text \<open>
  C1 (amended). From the empty collection of a new session, or from any collection whose
  identifiers are unique and which is empty or has exactly one featured image: after
  every event of any sequence of events that the rendered component can raise (files
  selected, with newly minted identifiers; an image of the collection removed; an image
  dragged; an image of the collection marked as featured), a collection that is not empty
  has exactly one image with \<open>destacada = true\<close>.
\<close>

theorem single_featured_after_every_event:
  assumes "well_formed s" and "all_raised_by_ui es s"
    and "orderedImages (run (take n es) s) \<noteq> []"
  shows "length (featured (orderedImages (run (take n es) s))) = 1"
  using well_formed_run [OF assms(1,2), of n] assms(3)
  by (simp add: well_formed_def)

theorem single_featured_after_every_event_witness:
  "well_formed initial \<and> all_raised_by_ui editing_session initial \<and>
   orderedImages (run (take 4 editing_session) initial) \<noteq> [] \<and>
   length (featured (orderedImages (run (take 4 editing_session) initial))) = 1"
proof -
  have ui: "all_raised_by_ui editing_session initial"
    by (simp add: editing_session_def ev)
  have ne: "orderedImages (run (take 4 editing_session) initial) \<noteq> []"
    by (simp add: editing_session_def ev)
  from single_featured_after_every_event [OF well_formed_initial ui ne] ui ne
  show ?thesis by (simp add: well_formed_initial)
qed

text \<open>
  As claimed for every sequence of the four operations, the property fails:
  \<open>handleSetDestacada\<close> called with a \<open>storage_id\<close> that no image has leaves a
  collection of one image without a featured image.
\<close>

theorem single_featured_stale_counterexample:
  "orderedImages (run stale_session initial) \<noteq> [] \<and>
   length (featured (orderedImages (run stale_session initial))) = 0"
  by (simp add: stale_session_def ev)

text \<open>
  C4 (amended). \<open>handleSetDestacada(storage_id)\<close> never fails and changes nothing but the
  flags \<open>destacada\<close>: the flag of each image becomes true exactly when its \<open>storage_id\<close>
  is the given one. When the storage identifiers are unique and an image has the given one,
  that image is the only featured image afterwards. When no image has it, every flag is
  cleared, so the collection stays as it was only if it had no featured image.
\<close>

theorem setFeatured_flags:
  "imagesToDelete (handleSetDestacada sid s) = imagesToDelete s \<and>
   revoked (handleSetDestacada sid s) = revoked s \<and>
   isInitialized (handleSetDestacada sid s) = isInitialized s \<and>
   map (\<lambda>img. img\<lparr>img_destacada := False\<rparr>) (orderedImages (handleSetDestacada sid s)) =
     map (\<lambda>img. img\<lparr>img_destacada := False\<rparr>) (orderedImages s) \<and>
   map img_destacada (orderedImages (handleSetDestacada sid s)) =
     map (\<lambda>img. img_storage_id img = sid) (orderedImages s) \<and>
   (distinct (map img_storage_id (orderedImages s)) \<longrightarrow>
      (\<forall>img \<in> set (orderedImages s). img_storage_id img = sid \<longrightarrow>
         featured (orderedImages (handleSetDestacada sid s)) = [img\<lparr>img_destacada := True\<rparr>])) \<and>
   (sid \<notin> set (map img_storage_id (orderedImages s)) \<longrightarrow>
      featured (orderedImages (handleSetDestacada sid s)) = [] \<and>
      (handleSetDestacada sid s = s \<longleftrightarrow> featured (orderedImages s) = []))"
proof -
  have found: "featured (orderedImages (handleSetDestacada sid s)) = [img\<lparr>img_destacada := True\<rparr>]"
    if d: "distinct (map img_storage_id (orderedImages s))"
      and m: "img \<in> set (orderedImages s)" "img_storage_id img = sid" for img
  proof -
    have "sid \<in> set (map img_storage_id (orderedImages s))" using m by auto
    with d have "length (filter (\<lambda>x. img_storage_id x = sid) (orderedImages s)) = 1"
      by (rule count_match_distinct)
    then obtain y where y: "filter (\<lambda>x. img_storage_id x = sid) (orderedImages s) = [y]"
      by (auto simp: length_Suc_conv)
    moreover have "img \<in> set (filter (\<lambda>x. img_storage_id x = sid) (orderedImages s))"
      using m by simp
    ultimately have "y = img" by simp
    with y show ?thesis by (simp add: handleSetDestacada_def featured_set)
  qed
  have absent: "featured (orderedImages (handleSetDestacada sid s)) = []"
    if "sid \<notin> set (map img_storage_id (orderedImages s))"
    using that by (auto simp: handleSetDestacada_def featured_set filter_empty_conv)
  have same: "handleSetDestacada sid s = s \<longleftrightarrow> featured (orderedImages s) = []"
    if "sid \<notin> set (map img_storage_id (orderedImages s))"
  proof -
    have "handleSetDestacada sid s = s \<longleftrightarrow>
          (\<forall>img \<in> set (orderedImages s). img_destacada img = (img_storage_id img = sid))"
      by (simp add: handleSetDestacada_def update_orderedImages_same map_flags_same)
    also have "\<dots> \<longleftrightarrow> featured (orderedImages s) = []"
      using that by (auto simp: featured_def filter_empty_conv)
    finally show ?thesis .
  qed
  show ?thesis
    using found absent same
    by (simp add: handleSetDestacada_def comp_def)
qed

theorem setFeatured_flags_witness:
  "distinct (map img_storage_id (orderedImages two_new)) \<and>
   image_b \<in> set (orderedImages two_new) \<and> img_storage_id image_b = ''b'' \<and>
   featured (orderedImages (handleSetDestacada ''b'' two_new)) = [image_b\<lparr>img_destacada := True\<rparr>] \<and>
   ''zzz'' \<notin> set (map img_storage_id (orderedImages two_new)) \<and>
   featured (orderedImages (handleSetDestacada ''zzz'' two_new)) = [] \<and>
   handleSetDestacada ''zzz'' two_new \<noteq> two_new"
  using setFeatured_flags [of "''b''" two_new] setFeatured_flags [of "''zzz''" two_new]
  by (simp add: ev)

text \<open>
  As claimed, a \<open>storage_id\<close> that no image has would leave the collection unchanged; the
  collection of the images \<open>a\<close> (featured) and \<open>b\<close> changes.
\<close>

theorem setFeatured_absent_counterexample:
  "''zzz'' \<notin> set (map img_storage_id (orderedImages two_new)) \<and>
   handleSetDestacada ''zzz'' two_new \<noteq> two_new"
  by (simp add: ev)

text \<open>
  C5. The value handed to \<open>onImagesChange\<close> is a function of \<open>orderedImages\<close> and
  \<open>imagesToDelete\<close> alone. It has one metadata entry for each image, in the order of the
  collection; the entry at position \<open>i\<close> (counted from 0) has \<open>order_index = i + 1\<close> and the
  flags and \<open>storage_id\<close> of the image at that position, so the order indices are
  \<open>1, 2, \<dots>, n\<close>. With unique storage identifiers, the file of each new image is in
  \<open>filesToUpload\<close> under the \<open>storage_id\<close> of the image, and the keys of \<open>filesToUpload\<close>
  are the storage identifiers of the new images that have a file. \<open>imagesToDelete\<close> is
  passed on as it is. Two states with the same \<open>orderedImages\<close> and \<open>imagesToDelete\<close> give
  the same value.
\<close>

theorem changes_order_stable:
  "length (orderedImagesMetadata (changes s)) = length (orderedImages s) \<and>
   (\<forall>i < length (orderedImages s).
      meta_order_index (orderedImagesMetadata (changes s) ! i) = int i + 1 \<and>
      meta_destacada (orderedImagesMetadata (changes s) ! i) = img_destacada (orderedImages s ! i) \<and>
      meta_storage_id (orderedImagesMetadata (changes s) ! i) = img_storage_id (orderedImages s ! i) \<and>
      meta_isNew (orderedImagesMetadata (changes s) ! i) = img_isNew (orderedImages s ! i)) \<and>
   map meta_order_index (orderedImagesMetadata (changes s)) =
     map int [1..<Suc (length (orderedImages s))] \<and>
   (distinct (map img_storage_id (orderedImages s)) \<longrightarrow>
      (\<forall>img \<in> set (orderedImages s). \<forall>f. img_isNew img \<and> img_file img = Some f \<longrightarrow>
         filesToUpload (changes s) (img_storage_id img) = Some f)) \<and>
   dom (filesToUpload (changes s)) =
     img_storage_id ` {img \<in> set (orderedImages s). img_isNew img \<and> img_file img \<noteq> None} \<and>
   imageIdsToDelete (changes s) = imagesToDelete s \<and>
   (orderedImages s' = orderedImages s \<and> imagesToDelete s' = imagesToDelete s \<longrightarrow>
      changes s' = changes s)"
proof -
  have fields: "\<forall>i < length (orderedImages s).
      meta_order_index (orderedImagesMetadata (changes s) ! i) = int i + 1 \<and>
      meta_destacada (orderedImagesMetadata (changes s) ! i) = img_destacada (orderedImages s ! i) \<and>
      meta_storage_id (orderedImagesMetadata (changes s) ! i) = img_storage_id (orderedImages s ! i) \<and>
      meta_isNew (orderedImagesMetadata (changes s) ! i) = img_isNew (orderedImages s ! i)"
    by (simp add: changes_def nth_enumerate_eq metadata_of_def)
  have order: "map meta_order_index (orderedImagesMetadata (changes s)) =
               map int [1..<Suc (length (orderedImages s))]"
    using metadata_order [of 0 "orderedImages s"] by (simp add: changes_def)
  have files: "filesToUpload (changes s) (img_storage_id img) = Some f"
    if "distinct (map img_storage_id (orderedImages s))" "img \<in> set (orderedImages s)"
       "img_isNew img" "img_file img = Some f" for img f
    using that by (simp add: changes_def collect_files_new)
  have keys: "dom (filesToUpload (changes s)) =
     img_storage_id ` {img \<in> set (orderedImages s). img_isNew img \<and> img_file img \<noteq> None}"
    by (simp add: changes_def dom_collect_files)
  have pure: "changes s' = changes s"
    if "orderedImages s' = orderedImages s" "imagesToDelete s' = imagesToDelete s"
    using that by (simp add: changes_def)
  have len: "length (orderedImagesMetadata (changes s)) = length (orderedImages s)"
    by (simp add: changes_def)
  have del: "imageIdsToDelete (changes s) = imagesToDelete s"
    by (simp add: changes_def)
  from len fields order files keys del pure show ?thesis by blast
qed

theorem changes_order_stable_witness:
  "distinct (map img_storage_id (orderedImages mixed)) \<and>
   map meta_order_index (orderedImagesMetadata (changes mixed)) = [1, 2, 3] \<and>
   map meta_destacada (orderedImagesMetadata (changes mixed)) = [False, True, False] \<and>
   meta_order_index (orderedImagesMetadata (changes mixed) ! 2) = 3 \<and>
   image_b \<in> set (orderedImages mixed) \<and> img_isNew image_b \<and> img_file image_b = Some ''B'' \<and>
   filesToUpload (changes mixed) ''b'' = Some ''B'' \<and>
   filesToUpload (changes mixed) ''s7'' = None \<and>
   orderedImages (mixed\<lparr>revoked := [''blob:c'']\<rparr>) = orderedImages mixed \<and>
   changes (mixed\<lparr>revoked := [''blob:c'']\<rparr>) = changes mixed"
proof -
  note c = changes_order_stable [of mixed "mixed\<lparr>revoked := [''blob:c'']\<rparr>"]
  have two: "(2::nat) < length (orderedImages mixed)" by (simp add: mixed_def)
  have b: "image_b \<in> set (orderedImages mixed)" "img_isNew image_b" "img_file image_b = Some ''B''"
    "distinct (map img_storage_id (orderedImages mixed))" "img_storage_id image_b = ''b''"
    by (simp_all add: mixed_def image_a_def image_b_def image_7_def)
  have upt: "[1..<Suc (length (orderedImages mixed))] = [1, 2, 3]"
    by (simp add: mixed_def upt_rec)
  have "filesToUpload (changes mixed) ''b'' = Some ''B''"
    using c b by fastforce
  moreover have "meta_order_index (orderedImagesMetadata (changes mixed) ! 2) = 3"
    using c two by fastforce
  moreover have "map meta_order_index (orderedImagesMetadata (changes mixed)) = [1, 2, 3]"
    using c upt by simp
  moreover have "changes (mixed\<lparr>revoked := [''blob:c'']\<rparr>) = changes mixed"
    using c by simp
  moreover have "map meta_destacada (orderedImagesMetadata (changes mixed)) = [False, True, False]"
    "filesToUpload (changes mixed) ''s7'' = None"
    by (simp_all add: changes_def mixed_def image_a_def image_b_def image_7_def
          enumerate_eq_zip metadata_of_def upt_rec)
  ultimately show ?thesis using b by simp
qed

text \<open>
  C6. Removing an image that is not new appends exactly the one entry
  \<open>{id, storage_id}\<close> of that image to \<open>imagesToDelete\<close> and revokes nothing; removing a
  new image leaves \<open>imagesToDelete\<close> as it is and calls \<open>URL.revokeObjectURL\<close> exactly
  once, on the preview URL of that image. In both cases no image with the identifier of
  the removed one is left in \<open>orderedImages\<close>, and the other images stay, in their order.
\<close>

theorem remove_deletions_and_release:
  "(if img_isNew r
    then imagesToDelete (handleRemoveImage r s) = imagesToDelete s \<and>
         revoked (handleRemoveImage r s) = revoked s @ [img_url r]
    else imagesToDelete (handleRemoveImage r s) =
           imagesToDelete s @ [\<lparr>del_id = img_id r, del_storage_id = img_storage_id r\<rparr>] \<and>
         revoked (handleRemoveImage r s) = revoked s) \<and>
   img_id r \<notin> img_id ` set (orderedImages (handleRemoveImage r s)) \<and>
   r \<notin> set (orderedImages (handleRemoveImage r s)) \<and>
   map img_id (orderedImages (handleRemoveImage r s)) =
     filter (\<lambda>i. i \<noteq> img_id r) (map img_id (orderedImages s))"
proof -
  have ids: "map img_id (orderedImages (handleRemoveImage r s)) =
             filter (\<lambda>i. i \<noteq> img_id r) (map img_id (orderedImages s))"
    by (simp add: handleRemoveImage_orderedImages img_id_destacar_primera filter_map comp_def)
  have "set (map img_id (orderedImages (handleRemoveImage r s))) =
        set (filter (\<lambda>i. i \<noteq> img_id r) (map img_id (orderedImages s)))"
    by (simp only: ids)
  then have gone: "img_id r \<notin> img_id ` set (orderedImages (handleRemoveImage r s))"
    by auto
  then have "r \<notin> set (orderedImages (handleRemoveImage r s))" by blast
  with gone ids show ?thesis
    by (simp add: handleRemoveImage_def Let_def)
qed



section \<open>Properties of the action\<close>

text \<open>The example submission, evaluated.\<close>

lemmas form_ev = good_form_def falsy_def not_a_number_def placa_missing_def ascii_trim_def
  is_space_def is_digit_def error_if_def validate_def payload_def

lemma early_submission: "early_return flaky submission = None"
  by (simp add: early_return_def flaky_def submission_def good_form_def)

lemma validate_submission: "validate flaky good_form = Inr []"
  by (simp add: form_ev flaky_def)

lemma start_submission:
  "start flaky submission = Started ''1'' ''v-1'' [meta_a, meta_b, meta_7, meta_c] [del_9]"
proof -
  have "payload (parse_metadata flaky) (good_form ''orderedImagesMetadata'') =
          Some [meta_a, meta_b, meta_7, meta_c]"
    "payload (parse_deletions flaky) (good_form ''imageIdsToDelete'') = Some [del_9]"
    "insert_vehiculo flaky = Inr (''1'', ''v-1'')"
    by (simp_all add: payload_def falsy_def good_form_def flaky_def)
  moreover have "formData submission = good_form"
    by (simp add: submission_def)
  ultimately show ?thesis
    by (simp add: start_def early_submission validate_submission)
qed

lemma tasks_submission:
  "promises flaky good_form ''1'' ''v-1'' [meta_a, meta_b, meta_7, meta_c] [del_9] =
     [(Rejected (Backend ''upload''), [(StorageUpload ''1/a'' ''A'', Some (Backend ''upload''))]),
      (Fulfilled (Answered None),
        [(StorageUpload ''1/b'' ''B'', None),
         (InsertImage ''v-1'' ''https://cdn/1/b'' 2 ''b'' ''false'' ''1'', None)]),
      (Fulfilled Skipped, []),
      (Fulfilled (Answered None), [(UpdateImage (Some ''7'') 3 ''false'', None)]),
      (Fulfilled (Answered None),
        [(StorageRemove ''1/s9'', Some (Backend ''removal'')), (DeleteImage ''9'', None)])]"
  by (simp add: promises_def upload_task_def update_task_def delete_task_def filePath_def
        destacada_text_def meta_a_def meta_b_def meta_7_def meta_c_def del_9_def
        good_form_def flaky_def Let_def)

lemma cover_submission:
  "cover_step flaky ''1'' ''v-1'' [meta_a, meta_b, meta_7, meta_c] =
     [(UpdateUrlImg ''v-1'' ''https://cdn/1/a'', None)]"
  by (simp add: cover_step_def filePath_def meta_a_def flaky_def Let_def)


lemma action_started:
  "start e req = Started vehicleId vehicleUuid metas dels \<Longrightarrow>
   action e req =
     \<lparr>reply = Redirect ''/vehiculos'', parent = [(InsertVehiculo, None)],
      tasks = promises e (formData req) vehicleId vehicleUuid metas dels,
      cover = cover_step e vehicleId vehicleUuid metas\<rparr>"
  by (simp add: action_def)

lemma validate_ignores_answers:
  "validate (e\<lparr>answer := a, listBuckets := l\<rparr>) fd = validate e fd"
proof -
  have n: "not_a_number (e\<lparr>answer := a, listBuckets := l\<rparr>) raw = not_a_number e raw" for raw
    by (simp add: not_a_number_def split: option.splits form_value.splits)
  have p: "placa_missing (e\<lparr>answer := a, listBuckets := l\<rparr>) raw = placa_missing e raw" for raw
    by (simp add: placa_missing_def split: option.splits form_value.splits)
  show ?thesis by (simp add: validate_def n p cong: sum.case_cong)
qed

lemma start_ignores_answers:
  "start (e\<lparr>answer := a, listBuckets := l\<rparr>) req = start e req"
proof -
  have r: "early_return (e\<lparr>answer := a, listBuckets := l\<rparr>) req = early_return e req"
    by (simp add: early_return_def)
  show ?thesis
    by (simp add: start_def r validate_ignores_answers Let_def
             cong: option.case_cong sum.case_cong if_cong)
qed


lemma promise_of_metadata:
  "meta \<in> set metas \<Longrightarrow>
   (if meta_isNew meta then upload_task e fd vehicleId vehicleUuid meta else update_task e meta)
     \<in> set (promises e fd vehicleId vehicleUuid metas dels)"
  by (auto simp: promises_def)

lemma promise_of_deletion:
  "d \<in> set dels \<Longrightarrow>
   delete_task e vehicleId d \<in> set (promises e fd vehicleId vehicleUuid metas dels)"
  by (simp add: promises_def)

lemma task_calls:
  "task \<in> set (tasks out) \<Longrightarrow> made \<in> set (snd task) \<Longrightarrow> made \<in> set (calls out)"
  by (auto simp: calls_def)

section \<open>The claims about the action\<close>



text \<open>
  C3. After the promises have settled, \<open>url_img\<close> is to be written with the URL of the
  featured metadata entry, taken from the entries whose operations succeeded. The action
  does not do so in the example submission: the only featured entry is \<open>a\<close>; its upload
  fails, so that its promise is rejected, the only upload to its path is the failed one
  and no image row is inserted for it; and the last step still sets \<open>url_img\<close> to the
  public URL of that path, where nothing is stored.
\<close>

theorem cover_written_after_failed_upload:
  "start flaky submission = Started ''1'' ''v-1'' [meta_a, meta_b, meta_7, meta_c] [del_9] \<and>
   filter meta_destacada [meta_a, meta_b, meta_7, meta_c] = [meta_a] \<and>
   tasks (action flaky submission) ! 0 =
     (Rejected (Backend ''upload''), [(StorageUpload ''1/a'' ''A'', Some (Backend ''upload''))]) \<and>
   filter (\<lambda>made. uploads_to ''1/a'' (fst made)) (calls (action flaky submission)) =
     [(StorageUpload ''1/a'' ''A'', Some (Backend ''upload''))] \<and>
   filter (\<lambda>made. inserts_image ''a'' (fst made)) (calls (action flaky submission)) = [] \<and>
   getPublicUrl flaky (filePath ''1'' (meta_storage_id meta_a)) = ''https://cdn/1/a'' \<and>
   cover (action flaky submission) = [(UpdateUrlImg ''v-1'' ''https://cdn/1/a'', None)]"
proof -
  have "filter meta_destacada [meta_a, meta_b, meta_7, meta_c] = [meta_a]"
    by (simp add: meta_a_def meta_b_def meta_7_def meta_c_def)
  moreover have "formData submission = good_form" by (simp add: submission_def)
  moreover have "getPublicUrl flaky (filePath ''1'' (meta_storage_id meta_a)) = ''https://cdn/1/a''"
    by (simp add: flaky_def filePath_def meta_a_def)
  ultimately show ?thesis
    by (simp add: start_submission action_def calls_def tasks_submission cover_submission)
qed

text \<open>
  C8. For every image to delete, whatever the backend answers to the removal from the
  bucket and to the deletion of the row: the promise makes the removal and then the
  deletion, nothing else, and is fulfilled with the answer to the deletion; both calls
  are among the calls of the action. The start of the action does not depend on those
  answers.
\<close>

theorem removal_and_deletion_independent:
  assumes "start e req = Started vehicleId vehicleUuid metas dels" and "d \<in> set dels"
  shows "(Fulfilled (Answered (answer e (DeleteImage (del_id d)))),
          [(StorageRemove (filePath vehicleId (del_storage_id d)),
            answer e (StorageRemove (filePath vehicleId (del_storage_id d)))),
           (DeleteImage (del_id d), answer e (DeleteImage (del_id d)))])
           \<in> set (tasks (action e req)) \<and>
         (StorageRemove (filePath vehicleId (del_storage_id d)),
          answer e (StorageRemove (filePath vehicleId (del_storage_id d))))
           \<in> set (calls (action e req)) \<and>
         (DeleteImage (del_id d), answer e (DeleteImage (del_id d)))
           \<in> set (calls (action e req)) \<and>
         start (e\<lparr>answer := a\<rparr>) req = start e req"
proof -
  have t: "delete_task e vehicleId d \<in> set (tasks (action e req))"
    using assms(2) by (simp add: action_started [OF assms(1)] promise_of_deletion)
  have shape: "delete_task e vehicleId d =
        (Fulfilled (Answered (answer e (DeleteImage (del_id d)))),
          [(StorageRemove (filePath vehicleId (del_storage_id d)),
            answer e (StorageRemove (filePath vehicleId (del_storage_id d)))),
           (DeleteImage (del_id d), answer e (DeleteImage (del_id d)))])"
    by (simp add: delete_task_def Let_def)
  have "made \<in> set (calls (action e req))" if "made \<in> set (snd (delete_task e vehicleId d))"
    for made
    using t that by (rule task_calls)
  then have "(StorageRemove (filePath vehicleId (del_storage_id d)),
          answer e (StorageRemove (filePath vehicleId (del_storage_id d))))
           \<in> set (calls (action e req))"
       "(DeleteImage (del_id d), answer e (DeleteImage (del_id d)))
           \<in> set (calls (action e req))"
    by (simp_all add: shape)
  moreover have "start (e\<lparr>answer := a\<rparr>) req = start e req"
    using start_ignores_answers [where e = e and a = a and l = "listBuckets e" and req = req]
    by simp
  ultimately show ?thesis using t by (simp add: shape)
qed

theorem removal_and_deletion_independent_witness:
  "start flaky submission = Started ''1'' ''v-1'' [meta_a, meta_b, meta_7, meta_c] [del_9] \<and>
   del_9 \<in> set [del_9] \<and>
   answer flaky (StorageRemove ''1/s9'') = Some (Backend ''removal'') \<and>
   (Fulfilled (Answered None),
    [(StorageRemove ''1/s9'', Some (Backend ''removal'')), (DeleteImage ''9'', None)])
     \<in> set (tasks (action flaky submission)) \<and>
   (DeleteImage ''9'', None) \<in> set (calls (action flaky submission))"
proof -
  have d: "del_9 \<in> set [del_9]" by simp
  have f: "filePath ''1'' (del_storage_id del_9) = ''1/s9''" "del_id del_9 = ''9''"
    "answer flaky (StorageRemove ''1/s9'') = Some (Backend ''removal'')"
    "answer flaky (DeleteImage ''9'') = None"
    by (simp_all add: filePath_def del_9_def flaky_def)
  from removal_and_deletion_independent [OF start_submission d, of "answer flaky"]
  show ?thesis by (simp add: f start_submission)
qed

lemma filePath_inject: "filePath vehicleId s = filePath vehicleId s' \<longleftrightarrow> s = s'"
  by (simp add: filePath_def)

lemma upload_task_calls:
  "made \<in> set (snd (upload_task e fd vehicleId vehicleUuid meta)) \<Longrightarrow>
   uploads_to (filePath vehicleId sid) (fst made) \<or> inserts_image sid (fst made) \<Longrightarrow>
   meta_storage_id meta = sid \<and> (\<exists>f. fd sid = Some (FFile f))"
  by (auto simp: upload_task_def Let_def filePath_inject
           split: option.splits form_value.splits sum.splits if_splits)

lemma update_task_calls:
  "made \<in> set (snd (update_task e meta)) \<Longrightarrow>
   \<not> uploads_to path (fst made) \<and> \<not> inserts_image sid (fst made)"
  by (auto simp: update_task_def Let_def)

lemma delete_task_calls:
  "made \<in> set (snd (delete_task e vehicleId d)) \<Longrightarrow>
   \<not> uploads_to path (fst made) \<and> \<not> inserts_image sid (fst made)"
  by (auto simp: delete_task_def Let_def)

lemma cover_step_calls:
  "made \<in> set (cover_step e vehicleId vehicleUuid metas) \<Longrightarrow>
   \<not> uploads_to path (fst made) \<and> \<not> inserts_image sid (fst made)"
  by (auto simp: cover_step_def Let_def split: option.splits if_splits)

lemma upload_task_skipped:
  "\<not> (\<exists>f. fd (meta_storage_id meta) = Some (FFile f)) \<Longrightarrow>
   upload_task e fd vehicleId vehicleUuid meta = (Fulfilled Skipped, [])"
  by (auto simp: upload_task_def split: option.splits form_value.splits)

text \<open>
  C10. For a new metadata entry whose \<open>storage_id\<close> names no file of the form, the promise
  is fulfilled without a call; no call of the action uploads to the path of that entry or
  inserts an image row with its \<open>storage_id\<close>; and the action replies with the redirect.
\<close>

theorem missing_binary_skipped:
  assumes "start e req = Started vehicleId vehicleUuid metas dels"
    and "meta \<in> set metas" and "meta_isNew meta"
    and "\<not> (\<exists>f. formData req (meta_storage_id meta) = Some (FFile f))"
  shows "upload_task e (formData req) vehicleId vehicleUuid meta = (Fulfilled Skipped, []) \<and>
         (Fulfilled Skipped, []) \<in> set (tasks (action e req)) \<and>
         \<not> list_ex (\<lambda>made. uploads_to (filePath vehicleId (meta_storage_id meta)) (fst made) \<or>
                            inserts_image (meta_storage_id meta) (fst made))
              (calls (action e req)) \<and>
         reply (action e req) = Redirect ''/vehiculos''"
proof -
  note act = action_started [OF assms(1)]
  let ?sid = "meta_storage_id meta"
  let ?bad = "\<lambda>made. uploads_to (filePath vehicleId ?sid) (fst made) \<or> inserts_image ?sid (fst made)"
  have skipped: "upload_task e (formData req) vehicleId vehicleUuid meta = (Fulfilled Skipped, [])"
    using assms(4) by (rule upload_task_skipped)
  have "upload_task e (formData req) vehicleId vehicleUuid meta \<in> set (tasks (action e req))"
    using promise_of_metadata [OF assms(2), of e "formData req" vehicleId vehicleUuid dels] assms(3)
    by (simp add: act)
  then have member: "(Fulfilled Skipped, []) \<in> set (tasks (action e req))"
    by (simp add: skipped)
  have none: "\<not> ?bad made" if "made \<in> set (calls (action e req))" for made
  proof
    assume bad: "?bad made"
    from that consider
        (parent) "made = (InsertVehiculo, None)"
      | (upload) m where "m \<in> set metas"
          "made \<in> set (snd (upload_task e (formData req) vehicleId vehicleUuid m))"
      | (update) m where "made \<in> set (snd (update_task e m))"
      | (delete) d where "made \<in> set (snd (delete_task e vehicleId d))"
      | (cover) "made \<in> set (cover_step e vehicleId vehicleUuid metas)"
      by (auto simp: calls_def act promises_def)
    then show False
    proof cases
      case parent
      with bad show False by simp
    next
      case upload
      from upload_task_calls [OF upload(2) bad] assms(4) show False by simp
    next
      case update
      from update_task_calls [OF update] bad show False by simp
    next
      case delete
      from delete_task_calls [OF delete] bad show False by simp
    next
      case cover
      from cover_step_calls [OF cover] bad show False by simp
    qed
  qed
  then have "\<not> list_ex ?bad (calls (action e req))"
    by (auto simp: list_ex_iff)
  with skipped member show ?thesis by (simp add: act)
qed

theorem missing_binary_skipped_witness:
  "start flaky submission = Started ''1'' ''v-1'' [meta_a, meta_b, meta_7, meta_c] [del_9] \<and>
   meta_c \<in> set [meta_a, meta_b, meta_7, meta_c] \<and> meta_isNew meta_c \<and>
   formData submission (meta_storage_id meta_c) = None \<and>
   upload_task flaky (formData submission) ''1'' ''v-1'' meta_c = (Fulfilled Skipped, []) \<and>
   \<not> list_ex (\<lambda>made. uploads_to ''1/c'' (fst made) \<or> inserts_image ''c'' (fst made))
              (calls (action flaky submission)) \<and>
   reply (action flaky submission) = Redirect ''/vehiculos''"
proof -
  have c: "meta_c \<in> set [meta_a, meta_b, meta_7, meta_c]" "meta_isNew meta_c"
    "formData submission (meta_storage_id meta_c) = None"
    "filePath ''1'' (meta_storage_id meta_c) = ''1/c''" "meta_storage_id meta_c = ''c''"
    by (simp_all add: meta_c_def submission_def good_form_def filePath_def)
  then have "\<not> (\<exists>f. formData submission (meta_storage_id meta_c) = Some (FFile f))"
    by simp
  from missing_binary_skipped [OF start_submission c(1,2) this] c start_submission
  show ?thesis by simp
qed

lemma in_error_if: "k \<in> set (error_if missing key) \<longleftrightarrow> missing \<and> k = key"
  by (auto simp: error_if_def)

lemma early_return_no_redirect: "early_return e req = Some r \<Longrightarrow> r \<noteq> Redirect target"
  by (auto simp: early_return_def split: if_splits sum.splits option.splits)

lemma validate_throws:
  "validate e fd = Inl thrown \<Longrightarrow> \<exists>f. fd ''placa'' = Some (FFile f)"
  by (auto simp: validate_def placa_missing_def
           split: sum.splits option.splits form_value.splits)

lemma validate_reports:
  assumes "(k \<in> set [''marca'', ''modelo'', ''version'', ''combustible'', ''color'',
                       ''transmision'', ''carroceria'', ''traccion''] \<and>
            (fd k = None \<or> fd k = Some (FString ''''))) \<or>
           (k \<in> set [''anio'', ''puertas'', ''km'', ''precio'', ''cilindraje''] \<and>
            (fd k = None \<or> fd k = Some (FString '''') \<or>
             (\<exists>s. fd k = Some (FString s) \<and> isNaN_Number e s))) \<or>
           (k = ''placa'' \<and>
            (fd k = None \<or> (\<exists>s. fd k = Some (FString s) \<and> trim e s = '''')))"
    and "validate e fd = Inr keys"
  shows "k \<in> set keys"
proof -
  from assms(2) obtain no_placa where p: "placa_missing e (fd ''placa'') = Inr no_placa"
    and keys: "keys =
               error_if (falsy (fd ''marca'')) ''marca'' @
               error_if (falsy (fd ''modelo'')) ''modelo'' @
               error_if (not_a_number e (fd ''anio'')) ''anio'' @
               error_if (falsy (fd ''version'')) ''version'' @
               error_if (not_a_number e (fd ''puertas'')) ''puertas'' @
               error_if (falsy (fd ''combustible'')) ''combustible'' @
               error_if (falsy (fd ''color'')) ''color'' @
               error_if no_placa ''placa'' @
               error_if (not_a_number e (fd ''km'')) ''km'' @
               error_if (not_a_number e (fd ''precio'')) ''precio'' @
               error_if (falsy (fd ''transmision'')) ''transmision'' @
               error_if (falsy (fd ''carroceria'')) ''carroceria'' @
               error_if (falsy (fd ''traccion'')) ''traccion'' @
               error_if (not_a_number e (fd ''cilindraje'')) ''cilindraje''"
    by (auto simp: validate_def split: sum.splits)
  have words': "k \<in> set keys"
    if "k \<in> set [''marca'', ''modelo'', ''version'', ''combustible'', ''color'',
                    ''transmision'', ''carroceria'', ''traccion'']" "falsy (fd k)"
    using that unfolding keys by (auto simp: in_error_if)
  have number: "k \<in> set keys"
    if "k \<in> set [''anio'', ''puertas'', ''km'', ''precio'', ''cilindraje'']"
       "not_a_number e (fd k)"
    using that unfolding keys by (auto simp: in_error_if)
  have placa: "k \<in> set keys"
    if "k = ''placa''" "fd k = None \<or> (\<exists>s. fd k = Some (FString s) \<and> trim e s = '''')"
  proof -
    from that p have "no_placa" by (auto simp: placa_missing_def)
    with that(1) show ?thesis unfolding keys by (simp add: in_error_if)
  qed
  from assms(1) consider
      (words) "k \<in> set [''marca'', ''modelo'', ''version'', ''combustible'', ''color'',
                        ''transmision'', ''carroceria'', ''traccion'']"
        "fd k = None \<or> fd k = Some (FString '''')"
    | (numbers) "k \<in> set [''anio'', ''puertas'', ''km'', ''precio'', ''cilindraje'']"
        "fd k = None \<or> fd k = Some (FString '''') \<or>
         (\<exists>s. fd k = Some (FString s) \<and> isNaN_Number e s)"
    | (plate) "k = ''placa''"
        "fd k = None \<or> (\<exists>s. fd k = Some (FString s) \<and> trim e s = '''')"
    by blast
  then show ?thesis
  proof cases
    case words
    from words(2) have "falsy (fd k)" by (simp only: falsy_def)
    with words(1) show ?thesis by (rule words')
  next
    case numbers
    from numbers(2) have "not_a_number e (fd k)"
      by (elim disjE exE conjE) (simp_all add: not_a_number_def)
    with numbers(1) show ?thesis by (rule number)
  next
    case plate
    then show ?thesis by (rule placa)
  qed
qed

text \<open>
  C7. When a required field is missing (absent or empty; for \<open>placa\<close>, absent or blank)
  or, where a number is required, not a number, the action makes no call at all: no
  vehicle is inserted and no image is uploaded, inserted, updated or deleted, and the
  reply is not the redirect. For a submission that gets to the validation (the session
  and the user were accepted, the request is not the one that clears a fetcher) and
  whose \<open>placa\<close> is a text field, the reply is the map of errors with status 400, and
  the field is one of its keys.
\<close>

theorem invalid_submission_rejected:
  assumes "(k \<in> set [''marca'', ''modelo'', ''version'', ''combustible'', ''color'',
                       ''transmision'', ''carroceria'', ''traccion''] \<and>
            (formData req k = None \<or> formData req k = Some (FString ''''))) \<or>
           (k \<in> set [''anio'', ''puertas'', ''km'', ''precio'', ''cilindraje''] \<and>
            (formData req k = None \<or> formData req k = Some (FString '''') \<or>
             (\<exists>s. formData req k = Some (FString s) \<and> isNaN_Number e s))) \<or>
           (k = ''placa'' \<and>
            (formData req k = None \<or> (\<exists>s. formData req k = Some (FString s) \<and> trim e s = '''')))"
  shows "calls (action e req) = [] \<and> tasks (action e req) = [] \<and>
         (\<forall>target. reply (action e req) \<noteq> Redirect target) \<and>
         (early_return e req = None \<and> (\<forall>f. formData req ''placa'' \<noteq> Some (FFile f)) \<longrightarrow>
            (\<exists>keys. reply (action e req) = JsonErrors keys 400 \<and> k \<in> set keys))"
proof (cases "early_return e req")
  case (Some r)
  then have "action e req = \<lparr>reply = r, parent = [], tasks = [], cover = []\<rparr>"
    by (simp add: action_def start_def)
  with Some show ?thesis
    by (simp add: calls_def early_return_no_redirect)
next
  case None
  show ?thesis
  proof (cases "validate e (formData req)")
    case (Inl thrown)
    with None have "action e req =
        \<lparr>reply = JsonError thrown 500, parent = [], tasks = [], cover = []\<rparr>"
      by (simp add: action_def start_def)
    moreover from Inl have "\<exists>f. formData req ''placa'' = Some (FFile f)"
      by (rule validate_throws)
    ultimately show ?thesis by (simp add: calls_def)
  next
    case (Inr keys)
    with assms have k: "k \<in> set keys" by (rule validate_reports)
    then have "keys \<noteq> []" by auto
    with None Inr have "action e req =
        \<lparr>reply = JsonErrors keys 400, parent = [], tasks = [], cover = []\<rparr>"
      by (simp add: action_def start_def)
    with k show ?thesis by (simp add: calls_def)
  qed
qed

lemma early_incomplete: "early_return flaky incomplete = None"
  by (simp add: early_return_def flaky_def incomplete_def submission_def good_form_def)

theorem invalid_submission_rejected_witness:
  "formData incomplete ''marca'' = None \<and>
   formData incomplete ''km'' = Some (FString ''far'') \<and> isNaN_Number flaky ''far'' \<and>
   early_return flaky incomplete = None \<and>
   formData incomplete ''placa'' = Some (FString '' ABC123 '') \<and>
   calls (action flaky incomplete) = [] \<and>
   (\<exists>keys. reply (action flaky incomplete) = JsonErrors keys 400 \<and> ''marca'' \<in> set keys) \<and>
   (\<exists>keys. reply (action flaky incomplete) = JsonErrors keys 400 \<and> ''km'' \<in> set keys)"
proof -
  have f: "formData incomplete ''marca'' = None"
    "formData incomplete ''km'' = Some (FString ''far'')" "isNaN_Number flaky ''far''"
    "formData incomplete ''placa'' = Some (FString '' ABC123 '')"
    by (simp_all add: incomplete_def submission_def good_form_def flaky_def is_digit_def)
  have p: "\<forall>f. formData incomplete ''placa'' \<noteq> Some (FFile f)"
    by (simp add: f)
  from invalid_submission_rejected [of "''marca''" incomplete flaky]
       invalid_submission_rejected [of "''km''" incomplete flaky] f p early_incomplete
  show ?thesis by simp
qed

end
